theory Spec2Isabelle
  imports Main "HOL-Library.Sublist"
begin

section \<open>Document processor: a shallow embedding\<close>

text \<open>
  The development follows \<^verbatim>\<open>backend/src/agent/document_processor.py\<close> and the two
  schemas it uses from \<^verbatim>\<open>tools_and_schemas.py\<close>. Python methods whose names start
  with an underscore keep their names without it (\<open>_process_pdf\<close> is \<open>process_pdf\<close>).

  A Python \<open>str\<close> is a \<open>string\<close>, one \<open>char\<close> per character, which covers the
  code points below 256. Everything the class reaches outside the repository (the
  language model, \<open>json.loads\<close>, PyPDF2, python-docx, pandas, PIL, the file system and
  pydantic's coercions) is a field of the record \<open>env\<close>; the code of the repository is
  modelled on top of it. The exceptions are the subclasses of \<open>Exception\<close>, the ones
  an \<open>except Exception\<close> clause catches.
\<close>

subsection \<open>Exceptions and Python values\<close>

datatype exn =
    ValueError string
  | KeyError string
  | TypeError string
  | AttributeError string
  | ValidationError string
  | OtherError string

text \<open>
  \<open>str(e)\<close>. A \<open>KeyError\<close> prints the \<open>repr\<close> of its key; the keys raised here are
  the three literal field names, whose \<open>repr\<close> is the name between single quotes.
  \<open>json.JSONDecodeError\<close> is a subclass of \<open>ValueError\<close>.
\<close>

definition quoted :: "string \<Rightarrow> string" where
  "quoted s = [CHR 0x27] @ s @ [CHR 0x27]"

fun str_exn :: "exn \<Rightarrow> string" where
  "str_exn (ValueError m) = m"
| "str_exn (KeyError k) = quoted k"
| "str_exn (TypeError m) = m"
| "str_exn (AttributeError m) = m"
| "str_exn (ValidationError m) = m"
| "str_exn (OtherError m) = m"

text \<open>
  The values \<open>json.loads\<close> can return. A float is kept as the text of its literal: the
  code never looks inside a number.
\<close>

datatype json =
    JNull
  | JBool bool
  | JInt int
  | JFloat string
  | JStr string
  | JArr "json list"
  | JObject "(string \<times> json) list"

text \<open>\<open>response.content\<close> of a chat message: a \<open>str\<close>, or a list of content blocks.\<close>

datatype message_content = ContentStr string | ContentList "json list"

subsection \<open>The schemas\<close>

record FileUpload =
  filename :: string
  content_type :: string
  file_size :: int
  file_path :: string

record DocumentAnalysis =
  document_type :: string
  summary :: string
  key_insights :: "string list"
  questions_answered :: "string list"

subsection \<open>What the libraries hand back\<close>

text \<open>
  A pandas column as the report reads it: its name, the text of its dtype and whether
  \<open>select_dtypes(include=['number'])\<close> keeps it. A data frame: \<open>len(df)\<close>, the
  columns, and the two renderings \<open>df.head().to_string()\<close> and
  \<open>df[numeric_cols].describe().to_string()\<close>.
\<close>

record column =
  col_name :: string
  col_dtype :: string
  col_numeric :: bool

record dataframe =
  df_len :: nat
  df_columns :: "column list"
  df_head_string :: string
  df_describe_string :: string

text \<open>A PIL image: \<open>img.format\<close> (which may be \<open>None\<close>), \<open>img.size\<close>, \<open>img.mode\<close>.\<close>

record image =
  img_format :: "string option"
  img_size :: "nat \<times> nat"
  img_mode :: string

text \<open>
  The collaborators. \<open>pdf_reader\<close> is \<open>open(path, 'rb')\<close> with \<open>PdfReader\<close>: it
  raises, or gives the pages in document order, each with what \<open>extract_text()\<close> does
  on it. \<open>read_utf8\<close> is the file's bytes decoded as UTF-8, before the newline
  handling of text mode. \<open>coerce_str\<close> is what pydantic makes of a value that is not a
  \<open>str\<close> in a \<open>str\<close> field (\<open>None\<close> when it rejects it), \<open>validation_text\<close> the
  text of the \<open>ValidationError\<close> it raises for three rejected field values.
\<close>

record env =
  llm_invoke :: "string \<Rightarrow> exn + message_content"
  json_loads :: "string \<Rightarrow> exn + json"
  pdf_reader :: "string \<Rightarrow> exn + (exn + string) list"
  docx_paragraphs :: "string \<Rightarrow> exn + string list"
  read_csv :: "string \<Rightarrow> exn + dataframe"
  read_utf8 :: "string \<Rightarrow> exn + string"
  image_open :: "string \<Rightarrow> exn + image"
  coerce_str :: "json \<Rightarrow> string option"
  validation_text :: "json \<Rightarrow> json \<Rightarrow> json \<Rightarrow> string"

subsection \<open>Python's string operations\<close>

text \<open>\<open>str.lower()\<close> on the code points below 256: A-Z and the Latin-1 capitals.\<close>

definition lower_char :: "char \<Rightarrow> char" where
  "lower_char c =
     (let n = (of_char c :: nat)
      in if (65 \<le> n \<and> n \<le> 90) \<or> (192 \<le> n \<and> n \<le> 222 \<and> n \<noteq> 215)
         then char_of (n + 32) else c)"

definition lower :: "string \<Rightarrow> string" where
  "lower s = map lower_char s"

text \<open>\<open>s.find(c)\<close> and \<open>s.rfind(c)\<close> for a one-character \<open>c\<close>: an index, or \<open>-1\<close>.\<close>

fun py_find :: "string \<Rightarrow> char \<Rightarrow> int" where
  "py_find [] c = -1"
| "py_find (x # xs) c =
     (if x = c then 0 else (let r = py_find xs c in if r = -1 then -1 else r + 1))"

fun py_rfind :: "string \<Rightarrow> char \<Rightarrow> int" where
  "py_rfind [] c = -1"
| "py_rfind (x # xs) c =
     (let r = py_rfind xs c in if r \<noteq> -1 then r + 1 else if x = c then 0 else -1)"

text \<open>\<open>s[i:j]\<close>: a negative bound counts from the end, and both are clamped.\<close>

definition slice :: "string \<Rightarrow> int \<Rightarrow> int \<Rightarrow> string" where
  "slice s i j =
     (let n = int (length s);
          a = (if i < 0 then max (n + i) 0 else min i n);
          b = (if j < 0 then max (n + j) 0 else min j n)
      in take (nat (b - a)) (drop (nat a) s))"

text \<open>\<open>sep.join(xs)\<close>.\<close>

fun join :: "string \<Rightarrow> string list \<Rightarrow> string" where
  "join sep [] = []"
| "join sep [x] = x"
| "join sep (x # y # ys) = x @ sep @ join sep (y # ys)"

text \<open>\<open>str(n)\<close> for a natural number.\<close>

fun str_nat :: "nat \<Rightarrow> string" where
  "str_nat n =
     (if n < 10 then [char_of (48 + n)]
      else str_nat (n div 10) @ [char_of (48 + n mod 10)])"

declare str_nat.simps [simp del]

text \<open>
  Reading in text mode with the default \<open>newline=None\<close>, as
  \<open>aiofiles.open(file_path, 'r', encoding='utf-8')\<close> does: universal newlines, where
  \<open>\r\n\<close> and a lone \<open>\r\<close> each come out as \<open>\n\<close>.
\<close>

fun universal_newlines :: "string \<Rightarrow> string" where
  "universal_newlines [] = []"
| "universal_newlines (c # cs) =
     (if c = CHR 0x0D
      then (case cs of
              [] \<Rightarrow> [CHR 0x0A]
            | d # ds \<Rightarrow>
                if d = CHR 0x0A then CHR 0x0A # universal_newlines ds
                else CHR 0x0A # universal_newlines cs)
      else c # universal_newlines cs)"

subsection \<open>The type dispatcher\<close>

definition get_document_type :: "string \<Rightarrow> string" where
  "get_document_type ct =
     (if sublist ''pdf'' (lower ct) then ''PDF''
      else if sublist ''word'' (lower ct) \<or> sublist ''docx'' (lower ct) then ''DOCX''
      else if sublist ''csv'' (lower ct) then ''CSV''
      else if sublist ''text'' (lower ct) then ''TXT''
      else if sublist ''image'' (lower ct) then ''IMAGE''
      else ''UNKNOWN'')"

text \<open>
  The specification's reading of the dispatcher: \<open>s\<close> contains the keyword in some
  mix of upper and lower case.
\<close>

definition contains_ci :: "string \<Rightarrow> string \<Rightarrow> bool" where
  "contains_ci kw s = (\<exists>u. sublist u s \<and> lower u = kw)"

text \<open>
  The specification's reading again, without \<open>lower\<close>: a case variant of a keyword
  has, at each place, the keyword's letter or its capital; \<open>s\<close> contains the keyword
  in any case when it contains one of its case variants.
\<close>

definition ascii_upper :: "char \<Rightarrow> char" where
  "ascii_upper k =
     (let n = (of_char k :: nat)
      in if 97 \<le> n \<and> n \<le> 122 then char_of (n - 32) else k)"

definition case_variant :: "string \<Rightarrow> string \<Rightarrow> bool" where
  "case_variant u kw = list_all2 (\<lambda>x k. x = k \<or> x = ascii_upper k) u kw"

definition contains_any_case :: "string \<Rightarrow> string \<Rightarrow> bool" where
  "contains_any_case kw s = (\<exists>u. sublist u s \<and> case_variant u kw)"

definition ascii_lower_letter :: "char \<Rightarrow> bool" where
  "ascii_lower_letter k = (97 \<le> (of_char k :: nat) \<and> (of_char k :: nat) \<le> 122)"

definition recognized_tags :: "string set" where
  "recognized_tags = {''PDF'', ''DOCX'', ''CSV'', ''TXT'', ''IMAGE'', ''UNKNOWN''}"

subsection \<open>The extractors\<close>

text \<open>
  The page loop of \<open>_process_pdf\<close>: \<open>text += page.extract_text() + "\n"\<close>, left at
  the first page that raises.
\<close>

fun pdf_pages :: "(exn + string) list \<Rightarrow> string \<Rightarrow> exn + string" where
  "pdf_pages [] text = Inr text"
| "pdf_pages (p # ps) text =
     (case p of
        Inl e \<Rightarrow> Inl e
      | Inr t \<Rightarrow> pdf_pages ps (text @ t @ ''\<newline>''))"

definition process_pdf :: "env \<Rightarrow> string \<Rightarrow> string" where
  "process_pdf env path =
     (case (case pdf_reader env path of
              Inl e \<Rightarrow> Inl e
            | Inr pages \<Rightarrow> pdf_pages pages '''') of
        Inl e \<Rightarrow> ''Error reading PDF: '' @ str_exn e
      | Inr text \<Rightarrow> text)"

definition process_docx :: "env \<Rightarrow> string \<Rightarrow> string" where
  "process_docx env path =
     (case docx_paragraphs env path of
        Inl e \<Rightarrow> ''Error reading DOCX: '' @ str_exn e
      | Inr paragraphs \<Rightarrow> join ''\<newline>'' paragraphs)"

text \<open>The loop over \<open>df.dtypes.items()\<close>.\<close>

fun dtype_lines :: "column list \<Rightarrow> string \<Rightarrow> string" where
  "dtype_lines [] report = report"
| "dtype_lines (c # cs) report =
     dtype_lines cs (report @ ''- '' @ col_name c @ '': '' @ col_dtype c @ ''\<newline>'')"

definition csv_report :: "dataframe \<Rightarrow> string" where
  "csv_report df =
     (let report = ''CSV file with '' @ str_nat (df_len df) @ '' rows and ''
                      @ str_nat (length (df_columns df)) @ '' columns.\<newline>'';
          report = report @ ''Columns: ''
                      @ join '', '' (map col_name (df_columns df)) @ ''\<newline>\<newline>'';
          report = report @ ''Column data types:\<newline>'';
          report = dtype_lines (df_columns df) report;
          report = report @ ''\<newline>First 5 rows:\<newline>'' @ df_head_string df @ ''\<newline>'';
          numeric_cols = filter col_numeric (df_columns df)
      in if length numeric_cols > 0
         then report @ ''\<newline>Numeric column statistics:\<newline>''
                @ df_describe_string df @ ''\<newline>''
         else report)"

definition process_csv :: "env \<Rightarrow> string \<Rightarrow> string" where
  "process_csv env path =
     (case read_csv env path of
        Inl e \<Rightarrow> ''Error reading CSV: '' @ str_exn e
      | Inr df \<Rightarrow> csv_report df)"

definition process_txt :: "env \<Rightarrow> string \<Rightarrow> string" where
  "process_txt env path =
     (case read_utf8 env path of
        Inl e \<Rightarrow> ''Error reading TXT: '' @ str_exn e
      | Inr decoded \<Rightarrow> universal_newlines decoded)"

definition process_image :: "env \<Rightarrow> string \<Rightarrow> string" where
  "process_image env path =
     (case image_open env path of
        Inl e \<Rightarrow> ''Error processing image: '' @ str_exn e
      | Inr img \<Rightarrow>
          ''Image file: '' @ (case img_format img of None \<Rightarrow> ''None'' | Some f \<Rightarrow> f)
            @ '', Size: ('' @ str_nat (fst (img_size img)) @ '', ''
            @ str_nat (snd (img_size img)) @ ''), Mode: '' @ img_mode img)"

subsection \<open>The content analyzer\<close>

text \<open>The f-string of \<open>_analyze_content\<close>, with \<open>content[:4000]\<close> in it.\<close>

definition analysis_prompt :: "string \<Rightarrow> string \<Rightarrow> string" where
  \<open>analysis_prompt content dt =
     ''\<newline>''
     @ ''        Analyze the following '' @ dt @ '' document content and provide:\<newline>''
     @ ''        \<newline>''
     @ ''        1. A concise summary (2-3 sentences)\<newline>''
     @ ''        2. 3-5 key insights or main points\<newline>''
     @ ''        3. 3-5 questions that can be answered based on this content\<newline>''
     @ ''        \<newline>''
     @ ''        Document content:\<newline>''
     @ ''        '' @ take 4000 content @ ''  # Limit content to avoid token limits\<newline>''
     @ ''        \<newline>''
     @ ''        Please format your response as JSON with the following structure:\<newline>''
     @ ''        {\<newline>''
     @ ''            "summary": "Brief summary here",\<newline>''
     @ ''            "key_insights": ["insight 1", "insight 2", "insight 3"],\<newline>''
     @ ''            "questions_answered": ["question 1", "question 2", "question 3"]\<newline>''
     @ ''        }\<newline>''
     @ ''        ''\<close>

text \<open>The record of the \<open>else\<close> branch, and the record of the \<open>except\<close> clause.\<close>

definition fallback_no_json :: json where
  "fallback_no_json =
     JObject [(''summary'', JStr ''Document analysis completed''),
              (''key_insights'', JArr [JStr ''Content extracted successfully'']),
              (''questions_answered'', JArr [JStr ''General questions about document content''])]"

definition fallback_exception :: "string \<Rightarrow> json" where
  "fallback_exception dt =
     JObject [(''summary'', JStr (''Analysis completed for '' @ dt @ '' document'')),
              (''key_insights'',
                 JArr [JStr ''Document processed successfully'', JStr ''Content extracted'']),
              (''questions_answered'',
                 JArr [JStr ''What is the main topic?'', JStr ''What are the key points?''])]"

text \<open>
  The body of the \<open>try\<close> block. A \<open>content\<close> that is a list has no \<open>find\<close>; the
  branch test and the slice are the source's, with \<open>end_idx = rfind('}') + 1\<close>.
\<close>

definition analyze_attempt :: "env \<Rightarrow> string \<Rightarrow> string \<Rightarrow> exn + json" where
  "analyze_attempt env content dt =
     (case llm_invoke env (analysis_prompt content dt) of
        Inl e \<Rightarrow> Inl e
      | Inr (ContentList blocks) \<Rightarrow>
          Inl (AttributeError
                 (quoted ''list'' @ '' object has no attribute '' @ quoted ''find''))
      | Inr (ContentStr response_text) \<Rightarrow>
          (let start_idx = py_find response_text (CHR ''{'');
               end_idx = py_rfind response_text (CHR ''}'') + 1
           in if start_idx \<noteq> -1 \<and> end_idx \<noteq> -1
              then json_loads env (slice response_text start_idx end_idx)
              else Inr fallback_no_json))"

definition analyze_content :: "env \<Rightarrow> string \<Rightarrow> string \<Rightarrow> exn + json" where
  "analyze_content env content dt =
     (case analyze_attempt env content dt of
        Inl e \<Rightarrow> Inr (fallback_exception dt)
      | Inr analysis \<Rightarrow> Inr analysis)"

subsection \<open>The top level\<close>

text \<open>
  \<open>analysis[key]\<close>. A dict is an association list read from the front; subscripting
  anything else with a \<open>str\<close> is a \<open>TypeError\<close>.
\<close>

fun getitem :: "json \<Rightarrow> string \<Rightarrow> exn + json" where
  "getitem (JObject kvs) k =
     (case map_of kvs k of None \<Rightarrow> Inl (KeyError k) | Some v \<Rightarrow> Inr v)"
| "getitem (JArr xs) k = Inl (TypeError ''list indices must be integers or slices, not str'')"
| "getitem (JStr s) k = Inl (TypeError (''string indices must be integers, not '' @ quoted ''str''))"
| "getitem JNull k = Inl (TypeError (quoted ''NoneType'' @ '' object is not subscriptable''))"
| "getitem (JBool b) k = Inl (TypeError (quoted ''bool'' @ '' object is not subscriptable''))"
| "getitem (JInt i) k = Inl (TypeError (quoted ''int'' @ '' object is not subscriptable''))"
| "getitem (JFloat f) k = Inl (TypeError (quoted ''float'' @ '' object is not subscriptable''))"

text \<open>
  The constructor \<open>DocumentAnalysis(...)\<close> with pydantic's validation: a \<open>str\<close> passes
  as it is, so does a list of them; anything else goes through \<open>coerce_str\<close>, and a
  rejected field raises \<open>ValidationError\<close>.
\<close>

definition validate_str :: "env \<Rightarrow> json \<Rightarrow> string option" where
  "validate_str env v = (case v of JStr s \<Rightarrow> Some s | _ \<Rightarrow> coerce_str env v)"

definition validate_str_list :: "env \<Rightarrow> json \<Rightarrow> string list option" where
  "validate_str_list env v =
     (case v of JArr xs \<Rightarrow> those (map (validate_str env) xs) | _ \<Rightarrow> None)"

definition new_DocumentAnalysis ::
  "env \<Rightarrow> string \<Rightarrow> json \<Rightarrow> json \<Rightarrow> json \<Rightarrow> exn + DocumentAnalysis" where
  "new_DocumentAnalysis env dt s k q =
     (case (validate_str env s, validate_str_list env k, validate_str_list env q) of
        (Some s', Some k', Some q') \<Rightarrow>
          Inr \<lparr>document_type = dt, summary = s', key_insights = k', questions_answered = q'\<rparr>
      | _ \<Rightarrow> Inl (ValidationError (validation_text env s k q)))"

text \<open>The \<open>if\<close>/\<open>elif\<close> chain of \<open>process_file\<close>, with its explicit \<open>raise\<close>.\<close>

definition extract_text :: "env \<Rightarrow> string \<Rightarrow> string \<Rightarrow> exn + string" where
  "extract_text env dt path =
     (if dt = ''PDF'' then Inr (process_pdf env path)
      else if dt = ''DOCX'' then Inr (process_docx env path)
      else if dt = ''CSV'' then Inr (process_csv env path)
      else if dt = ''TXT'' then Inr (process_txt env path)
      else if dt = ''IMAGE'' then Inr (process_image env path)
      else Inl (ValueError (''Unsupported document type: '' @ dt)))"

text \<open>The \<open>try\<close> block from the dispatch on, and the record the \<open>except\<close> clause returns.\<close>

definition process_file_attempt :: "env \<Rightarrow> string \<Rightarrow> string \<Rightarrow> exn + DocumentAnalysis" where
  "process_file_attempt env dt path =
     (case extract_text env dt path of
        Inl e \<Rightarrow> Inl e
      | Inr extracted_text \<Rightarrow>
          (case analyze_content env extracted_text dt of
             Inl e \<Rightarrow> Inl e
           | Inr analysis \<Rightarrow>
               (case getitem analysis ''summary'' of
                  Inl e \<Rightarrow> Inl e
                | Inr s \<Rightarrow>
                    (case getitem analysis ''key_insights'' of
                       Inl e \<Rightarrow> Inl e
                     | Inr k \<Rightarrow>
                         (case getitem analysis ''questions_answered'' of
                            Inl e \<Rightarrow> Inl e
                          | Inr q \<Rightarrow> new_DocumentAnalysis env dt s k q)))))"

definition error_analysis :: "string \<Rightarrow> exn \<Rightarrow> DocumentAnalysis" where
  "error_analysis dt e =
     \<lparr>document_type = (if dt = [] then ''UNKNOWN'' else dt),
      summary = ''Error processing document: '' @ str_exn e,
      key_insights = [''Document processing failed''],
      questions_answered = [''Unable to analyze due to processing error'']\<rparr>"

text \<open>
  \<open>document_type\<close> is assigned by the first call of the \<open>try\<close> block, which cannot
  raise, so the \<open>except\<close> clause always finds it bound.
\<close>

definition process_file :: "env \<Rightarrow> FileUpload \<Rightarrow> exn + DocumentAnalysis" where
  "process_file env file_upload =
     (let path = file_path file_upload;
          dt = get_document_type (content_type file_upload)
      in case process_file_attempt env dt path of
           Inl e \<Rightarrow> Inr (error_analysis dt e)
         | Inr analysis \<Rightarrow> Inr analysis)"

subsection \<open>Sample inputs\<close>

text \<open>
  Concrete collaborators for the instances below: a model that always answers with the
  same text, and a stand-in for \<open>json.loads\<close> that parses two texts and rejects every
  other one the way \<open>json.loads\<close> rejects the empty text.
\<close>

definition sample_json_text :: string where
  \<open>sample_json_text = ''{"summary": "s", "key_insights": ["i"], "questions_answered": ["q"]}''\<close>

definition sample_json :: json where
  "sample_json =
     JObject [(''summary'', JStr ''s''), (''key_insights'', JArr [JStr ''i'']),
              (''questions_answered'', JArr [JStr ''q''])]"

definition stub_loads :: "string \<Rightarrow> exn + json" where
  "stub_loads s =
     (if s = ''{}'' then Inr (JObject [])
      else if s = sample_json_text then Inr sample_json
      else Inl (ValueError ''Expecting value: line 1 column 1 (char 0)''))"

definition sample_frame :: dataframe where
  "sample_frame =
     \<lparr>df_len = 12,
      df_columns = [\<lparr>col_name = ''city'', col_dtype = ''object'', col_numeric = False\<rparr>,
                    \<lparr>col_name = ''pop'', col_dtype = ''int64'', col_numeric = True\<rparr>],
      df_head_string = ''HEAD'',
      df_describe_string = ''STATS''\<rparr>"

definition stub_env :: "string \<Rightarrow> env" where
  "stub_env reply =
     \<lparr>llm_invoke = (\<lambda>prompt. Inr (ContentStr reply)),
      json_loads = stub_loads,
      pdf_reader = (\<lambda>path. Inr [Inr ''ab'', Inr [], Inr ''c'']),
      docx_paragraphs = (\<lambda>path. Inr [''first'', ''second'']),
      read_csv = (\<lambda>path. Inr sample_frame),
      read_utf8 = (\<lambda>path. Inr [CHR ''a'', CHR 0x0D, CHR 0x0A, CHR ''b'']),
      image_open = (\<lambda>path. Inl (OtherError ''cannot identify image file'')),
      coerce_str = (\<lambda>v. None),
      validation_text = (\<lambda>s k q. ''validation error for DocumentAnalysis'')\<rparr>"

definition sample_upload :: "string \<Rightarrow> FileUpload" where
  "sample_upload ct =
     \<lparr>filename = ''notes'', content_type = ct, file_size = 4, file_path = ''uploads/notes''\<rparr>"

definition sample_reply :: string where
  "sample_reply = ''Here you are: '' @ sample_json_text @ '' Done.''"

section \<open>Properties\<close>

subsection \<open>Strings\<close>

lemma char_of_eq:
  "(char_of (n::nat) = c) = (take_bit 8 n = of_char c)"
  "(c = char_of n) = (take_bit 8 n = of_char c)"
  by (metis char_of_eq_iff)+

lemma py_find_ge: "- 1 \<le> py_find s c"
  by (induction s) (auto simp: Let_def)

lemma py_find_minus1: "(py_find s c = -1) = (c \<notin> set s)"
proof (induction s)
  case Nil
  show ?case by simp
next
  case (Cons x xs)
  have "py_find xs c + 1 \<noteq> -1" using py_find_ge [of xs c] by arith
  with Cons show ?case by (auto simp: Let_def)
qed

lemma py_rfind_ge: "- 1 \<le> py_rfind s c"
  by (induction s) (auto simp: Let_def)

lemma py_rfind_minus1: "(py_rfind s c = -1) = (c \<notin> set s)"
proof (induction s)
  case Nil
  show ?case by simp
next
  case (Cons x xs)
  have "py_rfind xs c + 1 \<noteq> -1" using py_rfind_ge [of xs c] by arith
  with Cons show ?case by (auto simp: Let_def)
qed

lemma end_idx_never_minus1: "py_rfind s c + 1 \<noteq> -1"
  using py_rfind_ge [of s c] by arith

lemma slice_to_0: "0 \<le> i \<Longrightarrow> slice s i 0 = []"
  by (simp add: slice_def Let_def)

text \<open>The source's test \<open>kw in content_type.lower()\<close> is the specification's reading.\<close>

lemma contains_ci_iff: "contains_ci kw s = sublist kw (lower s)"
proof
  assume "contains_ci kw s"
  then obtain u where "sublist u s" "lower u = kw"
    by (auto simp: contains_ci_def)
  then show "sublist kw (lower s)"
    using map_mono_sublist [of u s lower_char] by (simp add: lower_def)
next
  assume "sublist kw (lower s)"
  then obtain ps ss where "map lower_char s = ps @ (kw @ ss)"
    by (auto simp: sublist_def lower_def)
  then have "\<exists>a r. s = a @ r \<and> map lower_char r = kw @ ss"
    by (metis map_eq_append_conv)
  then obtain a r where s: "s = a @ r" and r: "map lower_char r = kw @ ss"
    by blast
  from r have "\<exists>b c. r = b @ c \<and> map lower_char b = kw"
    by (metis map_eq_append_conv)
  then obtain b c where "r = b @ c" "map lower_char b = kw"
    by blast
  with s have "sublist b s" "lower b = kw"
    by (auto simp: lower_def)
  then show "contains_ci kw s"
    by (auto simp: contains_ci_def)
qed

lemma get_document_type_tags: "get_document_type ct \<in> recognized_tags"
  by (simp add: get_document_type_def recognized_tags_def)

lemma get_document_type_nonempty: "get_document_type ct \<noteq> []"
  by (simp add: get_document_type_def)

subsection \<open>The type dispatcher\<close>

lemma lower_char_eq_iff:
  assumes "ascii_lower_letter k"
  shows "(lower_char x = k) = (x = k \<or> x = ascii_upper k)"
proof -
  let ?n = "of_char x :: nat" and ?m = "of_char k :: nat"
  have m: "97 \<le> ?m" "?m \<le> 122"
    using assms by (simp_all add: ascii_lower_letter_def)
  have n: "?n < 256"
    by simp
  have up: "ascii_upper k = char_of (?m - 32)"
    using m by (simp add: ascii_upper_def Let_def)
  have upn: "(x = ascii_upper k) = (?n = ?m - 32)"
  proof -
    have "take_bit 8 (?m - 32) = ?m - 32"
      using m by (simp add: take_bit_eq_mod)
    then show ?thesis
      unfolding up char_of_eq(2) by auto
  qed
  have eqn: "(x = k) = (?n = ?m)"
    by simp
  show ?thesis
  proof (cases "(65 \<le> ?n \<and> ?n \<le> 90) \<or> (192 \<le> ?n \<and> ?n \<le> 222 \<and> ?n \<noteq> 215)")
    case True
    then have lc: "lower_char x = char_of (?n + 32)"
      unfolding lower_char_def Let_def by (rule if_P)
    have "take_bit 8 (?n + 32) = ?n + 32"
      using True by (auto simp: take_bit_eq_mod)
    then have "(lower_char x = k) = (?n + 32 = ?m)"
      unfolding lc char_of_eq(1) by simp
    then show ?thesis
      unfolding upn eqn using True m by auto
  next
    case False
    then have "lower_char x = x"
      unfolding lower_char_def Let_def by (rule if_not_P)
    then show ?thesis
      unfolding upn eqn using False m by auto
  qed
qed

lemma lower_eq_case_variant:
  "\<forall>k\<in>set kw. ascii_lower_letter k \<Longrightarrow> (lower u = kw) = case_variant u kw"
proof (induction u arbitrary: kw)
  case Nil
  show ?case by (auto simp: lower_def case_variant_def)
next
  case (Cons x u)
  show ?case
  proof (cases kw)
    case Nil
    then show ?thesis by (simp add: lower_def case_variant_def)
  next
    case (Cons k kw')
    with Cons.prems have k: "ascii_lower_letter k" and rest: "\<forall>k\<in>set kw'. ascii_lower_letter k"
      by simp_all
    have "(lower u = kw') = case_variant u kw'"
      using Cons.IH [OF rest] .
    then show ?thesis
      using lower_char_eq_iff [OF k, of x] Cons
      by (simp add: lower_def case_variant_def)
  qed
qed

lemma contains_any_case_iff:
  "\<forall>k\<in>set kw. ascii_lower_letter k \<Longrightarrow> contains_any_case kw s = sublist kw (lower s)"
  using lower_eq_case_variant [of kw]
  by (simp add: contains_any_case_def contains_ci_iff [symmetric] contains_ci_def)

lemma keywords_lower:
  "\<forall>k\<in>set ''pdf''. ascii_lower_letter k" "\<forall>k\<in>set ''word''. ascii_lower_letter k"
  "\<forall>k\<in>set ''docx''. ascii_lower_letter k" "\<forall>k\<in>set ''csv''. ascii_lower_letter k"
  "\<forall>k\<in>set ''text''. ascii_lower_letter k" "\<forall>k\<in>set ''image''. ascii_lower_letter k"
  by (simp_all add: ascii_lower_letter_def)

text \<open>
  C3: for every content-type string the dispatcher returns one of the six tags, chosen by
  containment of a keyword in any mix of upper and lower case, in the order pdf, word or
  docx, csv, text, image, and UNKNOWN when none matches. So a string containing "pdf",
  "PDF" or "PdF" is PDF whatever else it contains, and csv wins over text, text over
  image.
\<close>

theorem get_document_type_priority:
  "get_document_type ct \<in> recognized_tags
   \<and> get_document_type ct =
       (if contains_any_case ''pdf'' ct then ''PDF''
        else if contains_any_case ''word'' ct \<or> contains_any_case ''docx'' ct then ''DOCX''
        else if contains_any_case ''csv'' ct then ''CSV''
        else if contains_any_case ''text'' ct then ''TXT''
        else if contains_any_case ''image'' ct then ''IMAGE''
        else ''UNKNOWN'')
   \<and> (sublist u ct \<and> case_variant u ''pdf'' \<longrightarrow> get_document_type ct = ''PDF'')"
proof -
  have tags: "get_document_type ct \<in> recognized_tags"
    by (rule get_document_type_tags)
  have cascade: "get_document_type ct =
       (if contains_any_case ''pdf'' ct then ''PDF''
        else if contains_any_case ''word'' ct \<or> contains_any_case ''docx'' ct then ''DOCX''
        else if contains_any_case ''csv'' ct then ''CSV''
        else if contains_any_case ''text'' ct then ''TXT''
        else if contains_any_case ''image'' ct then ''IMAGE''
        else ''UNKNOWN'')"
    unfolding keywords_lower [THEN contains_any_case_iff]
    by (simp add: get_document_type_def)
  have pdf: "get_document_type ct = ''PDF''" if "sublist u ct" "case_variant u ''pdf''"
  proof -
    have "contains_any_case ''pdf'' ct"
      using that unfolding contains_any_case_def by blast
    then show ?thesis
      by (subst cascade) simp
  qed
  show ?thesis
    using tags cascade pdf by blast
qed

lemma upper_case_variants:
  "sublist ''PDF'' ''application/PDF''" "case_variant ''PDF'' ''pdf''"
  "sublist ''PdF'' ''Application/PdF; TEXT''" "case_variant ''PdF'' ''pdf''"
  by (simp_all add: sublist_code case_variant_def ascii_upper_def Let_def char_of_eq)

theorem get_document_type_priority_witness:
  "get_document_type ''application/PDF'' = ''PDF''
   \<and> get_document_type ''Application/PdF; TEXT'' = ''PDF''
   \<and> get_document_type ''application/MSWORD'' = ''DOCX''
   \<and> get_document_type ''TEXT/CSV; IMAGE'' = ''CSV''
   \<and> get_document_type ''IMAGE/TEXT'' = ''TXT''
   \<and> get_document_type ''Image/PNG'' = ''IMAGE''
   \<and> get_document_type ''application/zip'' = ''UNKNOWN''"
  using get_document_type_priority [of "''application/PDF''" "''PDF''"]
    get_document_type_priority [of "''Application/PdF; TEXT''" "''PdF''"]
    get_document_type_priority [of "''application/MSWORD''" "[]"]
    get_document_type_priority [of "''TEXT/CSV; IMAGE''" "[]"]
    get_document_type_priority [of "''IMAGE/TEXT''" "[]"]
    get_document_type_priority [of "''Image/PNG''" "[]"]
    get_document_type_priority [of "''application/zip''" "[]"]
    upper_case_variants
  by (simp add: keywords_lower [THEN contains_any_case_iff] lower_def lower_char_def
      char_of_eq sublist_code)

subsection \<open>The top level\<close>

lemma new_DocumentAnalysis_type:
  "new_DocumentAnalysis env dt s k q = Inr d \<Longrightarrow> document_type d = dt"
  by (auto simp: new_DocumentAnalysis_def split: option.splits)

lemma process_file_attempt_type:
  "process_file_attempt env dt path = Inr d \<Longrightarrow> document_type d = dt"
  by (auto simp: process_file_attempt_def split: sum.splits dest: new_DocumentAnalysis_type)

text \<open>
  C1: whatever the upload and whatever the libraries and the model do with it (a corrupt
  PDF, a missing or empty file, any content type), \<open>process_file\<close> returns a
  \<open>DocumentAnalysis\<close> and raises nothing; its \<open>document_type\<close> is the tag the
  dispatcher gave, one of the six, also when extraction or analysis failed.
\<close>

theorem process_file_never_raises:
  "\<exists>d. process_file env fu = Inr d
       \<and> document_type d = get_document_type (content_type fu)
       \<and> document_type d \<in> recognized_tags"
proof (cases "process_file_attempt env (get_document_type (content_type fu)) (file_path fu)")
  case (Inl e)
  then show ?thesis
    by (simp add: process_file_def error_analysis_def Let_def get_document_type_nonempty
        get_document_type_tags)
next
  case (Inr d)
  then show ?thesis
    using process_file_attempt_type [OF Inr]
    by (simp add: process_file_def Let_def get_document_type_tags)
qed

text \<open>
  C4: a content type that none of the five checks recognizes is UNKNOWN; the dispatch
  chain then raises \<open>ValueError\<close>, and \<open>process_file\<close> returns the record with
  \<open>document_type\<close> UNKNOWN, a summary that embeds the text of that exception, one
  insight saying that processing failed and one question saying that no analysis was
  possible.
\<close>

theorem unknown_type_error_analysis:
  assumes "\<not> contains_ci ''pdf'' (content_type fu)"
    and "\<not> contains_ci ''word'' (content_type fu)"
    and "\<not> contains_ci ''docx'' (content_type fu)"
    and "\<not> contains_ci ''csv'' (content_type fu)"
    and "\<not> contains_ci ''text'' (content_type fu)"
    and "\<not> contains_ci ''image'' (content_type fu)"
  shows "get_document_type (content_type fu) = ''UNKNOWN''
       \<and> process_file_attempt env ''UNKNOWN'' (file_path fu)
           = Inl (ValueError ''Unsupported document type: UNKNOWN'')
       \<and> process_file env fu =
           Inr \<lparr>document_type = ''UNKNOWN'',
                summary = ''Error processing document: ''
                            @ str_exn (ValueError ''Unsupported document type: UNKNOWN''),
                key_insights = [''Document processing failed''],
                questions_answered = [''Unable to analyze due to processing error'']\<rparr>"
proof -
  have dt: "get_document_type (content_type fu) = ''UNKNOWN''"
    using assms by (simp add: get_document_type_def contains_ci_iff)
  have att: "process_file_attempt env ''UNKNOWN'' (file_path fu)
           = Inl (ValueError ''Unsupported document type: UNKNOWN'')"
    by (simp add: process_file_attempt_def extract_text_def)
  show ?thesis
    using dt att by (simp add: process_file_def error_analysis_def Let_def)
qed

lemma zip_not_recognized:
  "\<not> contains_ci ''pdf'' ''application/zip''" "\<not> contains_ci ''word'' ''application/zip''"
  "\<not> contains_ci ''docx'' ''application/zip''" "\<not> contains_ci ''csv'' ''application/zip''"
  "\<not> contains_ci ''text'' ''application/zip''" "\<not> contains_ci ''image'' ''application/zip''"
  by (simp_all add: contains_ci_iff lower_def lower_char_def sublist_code)

theorem unknown_type_error_analysis_witness:
  "get_document_type ''application/zip'' = ''UNKNOWN''
   \<and> process_file (stub_env ''ok'') (sample_upload ''application/zip'') =
       Inr \<lparr>document_type = ''UNKNOWN'',
            summary = ''Error processing document: Unsupported document type: UNKNOWN'',
            key_insights = [''Document processing failed''],
            questions_answered = [''Unable to analyze due to processing error'']\<rparr>"
  using unknown_type_error_analysis [of "sample_upload ''application/zip''" "stub_env ''ok''"]
    zip_not_recognized
  by (simp add: sample_upload_def)

subsection \<open>The content analyzer\<close>

lemma analyze_attempt_str:
  assumes "llm_invoke env (analysis_prompt c dt) = Inr (ContentStr r)"
  shows "analyze_attempt env c dt =
           (if CHR ''{'' \<in> set r
            then json_loads env (slice r (py_find r (CHR ''{'')) (py_rfind r (CHR ''}'') + 1))
            else Inr fallback_no_json)"
  using assms end_idx_never_minus1 [of r "CHR ''}''"]
  by (simp add: analyze_attempt_def Let_def py_find_minus1)

text \<open>
  C10: a response with an opening brace and no closing one does not reach the \<open>else\<close>
  branch. \<open>rfind\<close> gives \<open>-1\<close>, so \<open>end_idx\<close> is \<open>0\<close>, which passes the test
  \<open>end_idx != -1\<close>; the slice is empty, \<open>json.loads\<close> raises on it, and the
  \<open>except\<close> clause returns its own record: the summary "Analysis completed for
  {document_type} document", the insights "Document processed successfully" and
  "Content extracted", the questions "What is the main topic?" and "What are the key
  points?". It is not the record of the \<open>else\<close> branch. That \<open>json.loads\<close> rejects
  the empty text is the hypothesis on the environment.
\<close>

theorem open_brace_only_exception_fallback:
  assumes "llm_invoke env (analysis_prompt c dt) = Inr (ContentStr r)"
    and "CHR ''{'' \<in> set r"
    and "CHR ''}'' \<notin> set r"
    and "json_loads env [] = Inl e"
  shows "py_find r (CHR ''{'') \<noteq> -1
       \<and> py_rfind r (CHR ''}'') + 1 = 0
       \<and> py_rfind r (CHR ''}'') + 1 \<noteq> -1
       \<and> slice r (py_find r (CHR ''{'')) (py_rfind r (CHR ''}'') + 1) = []
       \<and> analyze_attempt env c dt = Inl e
       \<and> analyze_content env c dt =
           Inr (JObject
                  [(''summary'', JStr (''Analysis completed for '' @ dt @ '' document'')),
                   (''key_insights'',
                      JArr [JStr ''Document processed successfully'', JStr ''Content extracted'']),
                   (''questions_answered'',
                      JArr [JStr ''What is the main topic?'', JStr ''What are the key points?''])])
       \<and> analyze_content env c dt \<noteq>
           Inr (JObject
                  [(''summary'', JStr ''Document analysis completed''),
                   (''key_insights'', JArr [JStr ''Content extracted successfully'']),
                   (''questions_answered'',
                      JArr [JStr ''General questions about document content''])])"
proof -
  have start: "py_find r (CHR ''{'') \<noteq> -1"
    using assms(2) by (simp add: py_find_minus1)
  have start_ge: "0 \<le> py_find r (CHR ''{'')"
    using start py_find_ge [of r "CHR ''{''"] by arith
  have stop: "py_rfind r (CHR ''}'') + 1 = 0"
    using assms(3) py_rfind_minus1 [of r "CHR ''}''"] by simp
  have sl: "slice r (py_find r (CHR ''{'')) (py_rfind r (CHR ''}'') + 1) = []"
    using slice_to_0 [OF start_ge] stop by simp
  have att: "analyze_attempt env c dt = Inl e"
    using analyze_attempt_str [OF assms(1)] assms(2) assms(4) sl by simp
  have res: "analyze_content env c dt =
           Inr (JObject
                  [(''summary'', JStr (''Analysis completed for '' @ dt @ '' document'')),
                   (''key_insights'',
                      JArr [JStr ''Document processed successfully'', JStr ''Content extracted'']),
                   (''questions_answered'',
                      JArr [JStr ''What is the main topic?'', JStr ''What are the key points?''])])"
    using att by (simp add: analyze_content_def fallback_exception_def)
  have diff: "analyze_content env c dt \<noteq>
           Inr (JObject
                  [(''summary'', JStr ''Document analysis completed''),
                   (''key_insights'', JArr [JStr ''Content extracted successfully'']),
                   (''questions_answered'',
                      JArr [JStr ''General questions about document content''])])"
    unfolding res by simp
  show ?thesis
    using start stop sl att res diff by simp
qed

lemma stub_loads_Nil: "stub_loads [] = Inl (ValueError ''Expecting value: line 1 column 1 (char 0)'')"
  by (simp add: stub_loads_def sample_json_text_def)

theorem open_brace_only_exception_fallback_witness:
  "py_rfind ''Sure: { summary'' (CHR ''}'') + 1 = 0
   \<and> analyze_content (stub_env ''Sure: { summary'') ''abc'' ''PDF'' =
       Inr (JObject
              [(''summary'', JStr ''Analysis completed for PDF document''),
               (''key_insights'',
                  JArr [JStr ''Document processed successfully'', JStr ''Content extracted'']),
               (''questions_answered'',
                  JArr [JStr ''What is the main topic?'', JStr ''What are the key points?''])])"
  using open_brace_only_exception_fallback
    [of "stub_env ''Sure: { summary''" "''abc''" "''PDF''" "''Sure: { summary''"
        "ValueError ''Expecting value: line 1 column 1 (char 0)''"]
    stub_loads_Nil
  by (simp add: stub_env_def)

lemma else_record_names_no_tag:
  assumes "dt \<in> recognized_tags"
  shows "\<not> sublist dt ''Document analysis completed''
       \<and> \<not> sublist dt ''Content extracted successfully''
       \<and> \<not> sublist dt ''General questions about document content''"
proof -
  let ?caps = "{CHR ''F'', CHR ''X'', CHR ''V'', CHR ''T'', CHR ''E'', CHR ''N''}"
  have absent: "c \<notin> set ''Document analysis completed''"
    "c \<notin> set ''Content extracted successfully''"
    "c \<notin> set ''General questions about document content''" if "c \<in> ?caps" for c
    using that by auto
  have "dt = ''PDF'' \<or> dt = ''DOCX'' \<or> dt = ''CSV'' \<or> dt = ''TXT''
             \<or> dt = ''IMAGE'' \<or> dt = ''UNKNOWN''"
    using assms by (simp only: recognized_tags_def insert_iff empty_iff simp_thms)
  then have "\<exists>c\<in>?caps. c \<in> set dt"
    by (elim disjE) simp_all
  then obtain c where c: "c \<in> ?caps" "c \<in> set dt"
    by blast
  have "\<not> sublist dt s" if "c \<notin> set s" for s
    using that c(2) set_mono_sublist [of dt s] by blast
  then show ?thesis
    using absent [OF c(1)] by blast
qed

text \<open>
  C2, as the code has it: the analyzer always returns a record and never an error.
  When the response has no opening brace it is the record of the \<open>else\<close> branch:
  summary "Document analysis completed", insight "Content extracted successfully",
  question "General questions about document content"; none of these strings contains
  any of the six tags. When the model call raises, when the content is not a \<open>str\<close>,
  or when \<open>json.loads\<close> raises on the slice, it is the record of the \<open>except\<close>
  clause: summary "Analysis completed for {document_type} document", which contains the
  document type, with the two insights and the two questions of that clause.
\<close>

theorem analyze_content_fallback_records:
  "(\<exists>a. analyze_content env c dt = Inr a)
   \<and> (llm_invoke env (analysis_prompt c dt) = Inr (ContentStr r) \<longrightarrow> CHR ''{'' \<notin> set r
        \<longrightarrow> analyze_content env c dt =
             Inr (JObject
                    [(''summary'', JStr ''Document analysis completed''),
                     (''key_insights'', JArr [JStr ''Content extracted successfully'']),
                     (''questions_answered'',
                        JArr [JStr ''General questions about document content''])]))
   \<and> ((llm_invoke env (analysis_prompt c dt) = Inl e
        \<or> llm_invoke env (analysis_prompt c dt) = Inr (ContentList blocks)
        \<or> (llm_invoke env (analysis_prompt c dt) = Inr (ContentStr r) \<and> CHR ''{'' \<in> set r
            \<and> json_loads env (slice r (py_find r (CHR ''{'')) (py_rfind r (CHR ''}'') + 1))
                = Inl e))
        \<longrightarrow> analyze_content env c dt =
             Inr (JObject
                    [(''summary'', JStr (''Analysis completed for '' @ dt @ '' document'')),
                     (''key_insights'',
                        JArr [JStr ''Document processed successfully'',
                              JStr ''Content extracted'']),
                     (''questions_answered'',
                        JArr [JStr ''What is the main topic?'',
                              JStr ''What are the key points?''])]))
   \<and> sublist dt (''Analysis completed for '' @ dt @ '' document'')
   \<and> (dt \<in> recognized_tags \<longrightarrow>
        \<not> sublist dt ''Document analysis completed''
        \<and> \<not> sublist dt ''Content extracted successfully''
        \<and> \<not> sublist dt ''General questions about document content'')"
proof -
  let ?else = "JObject
                    [(''summary'', JStr ''Document analysis completed''),
                     (''key_insights'', JArr [JStr ''Content extracted successfully'']),
                     (''questions_answered'',
                        JArr [JStr ''General questions about document content''])]"
  let ?except = "JObject
                    [(''summary'', JStr (''Analysis completed for '' @ dt @ '' document'')),
                     (''key_insights'',
                        JArr [JStr ''Document processed successfully'',
                              JStr ''Content extracted'']),
                     (''questions_answered'',
                        JArr [JStr ''What is the main topic?'',
                              JStr ''What are the key points?''])]"
  have total: "\<exists>a. analyze_content env c dt = Inr a"
    by (simp add: analyze_content_def split: sum.splits)
  have nobrace: "analyze_content env c dt = Inr ?else"
    if "llm_invoke env (analysis_prompt c dt) = Inr (ContentStr r)" "CHR ''{'' \<notin> set r"
    using analyze_attempt_str [OF that(1)] that(2)
    by (simp add: analyze_content_def fallback_no_json_def)
  have raised: "analyze_content env c dt = Inr ?except"
    if "analyze_attempt env c dt = Inl x" for x
    using that by (simp add: analyze_content_def fallback_exception_def)
  have call: "analyze_content env c dt = Inr ?except"
    if "llm_invoke env (analysis_prompt c dt) = Inl e"
  proof -
    have "analyze_attempt env c dt = Inl e"
      using that by (simp add: analyze_attempt_def)
    then show ?thesis by (rule raised)
  qed
  have blocks: "analyze_content env c dt = Inr ?except"
    if "llm_invoke env (analysis_prompt c dt) = Inr (ContentList blocks)"
  proof -
    have "\<exists>x. analyze_attempt env c dt = Inl x"
      using that by (simp add: analyze_attempt_def)
    then show ?thesis using raised by blast
  qed
  have parse: "analyze_content env c dt = Inr ?except"
    if "llm_invoke env (analysis_prompt c dt) = Inr (ContentStr r)" "CHR ''{'' \<in> set r"
      "json_loads env (slice r (py_find r (CHR ''{'')) (py_rfind r (CHR ''}'') + 1)) = Inl e"
  proof -
    have "analyze_attempt env c dt = Inl e"
      using analyze_attempt_str [OF that(1)] that(2) that(3) by simp
    then show ?thesis by (rule raised)
  qed
  have names: "sublist dt (''Analysis completed for '' @ dt @ '' document'')"
    by (rule sublist_appendI)
  show ?thesis
    using total nobrace call blocks parse names else_record_names_no_tag by blast
qed

theorem analyze_content_fallback_records_witness:
  "''PDF'' \<in> recognized_tags
   \<and> \<not> sublist ''PDF'' ''Document analysis completed''
   \<and> \<not> sublist ''PDF'' ''Content extracted successfully''
   \<and> \<not> sublist ''PDF'' ''General questions about document content''
   \<and> sublist ''PDF'' ''Analysis completed for PDF document''
   \<and> analyze_content (stub_env ''All good.'') ''abc'' ''PDF'' =
     Inr (JObject
            [(''summary'', JStr ''Document analysis completed''),
             (''key_insights'', JArr [JStr ''Content extracted successfully'']),
             (''questions_answered'', JArr [JStr ''General questions about document content''])])
   \<and> analyze_content
        ((stub_env ''x'')\<lparr>llm_invoke := (\<lambda>p. Inl (OtherError ''deadline exceeded''))\<rparr>)
        ''abc'' ''PDF'' =
       Inr (JObject
              [(''summary'', JStr ''Analysis completed for PDF document''),
               (''key_insights'',
                  JArr [JStr ''Document processed successfully'', JStr ''Content extracted'']),
               (''questions_answered'',
                  JArr [JStr ''What is the main topic?'', JStr ''What are the key points?''])])
   \<and> analyze_content ((stub_env ''x'')\<lparr>llm_invoke := (\<lambda>p. Inr (ContentList []))\<rparr>)
        ''abc'' ''CSV'' =
       Inr (JObject
              [(''summary'', JStr ''Analysis completed for CSV document''),
               (''key_insights'',
                  JArr [JStr ''Document processed successfully'', JStr ''Content extracted'']),
               (''questions_answered'',
                  JArr [JStr ''What is the main topic?'', JStr ''What are the key points?''])])
   \<and> analyze_content (stub_env ''}{'') ''abc'' ''TXT'' =
       Inr (JObject
              [(''summary'', JStr ''Analysis completed for TXT document''),
               (''key_insights'',
                  JArr [JStr ''Document processed successfully'', JStr ''Content extracted'']),
               (''questions_answered'',
                  JArr [JStr ''What is the main topic?'', JStr ''What are the key points?''])])"
proof -
  have a: "llm_invoke (stub_env ''All good.'') (analysis_prompt ''abc'' ''PDF'')
             = Inr (ContentStr ''All good.'')"
    "CHR ''{'' \<notin> set ''All good.''"
    by (simp_all add: stub_env_def)
  have b: "llm_invoke ((stub_env ''x'')\<lparr>llm_invoke := (\<lambda>p. Inl (OtherError ''deadline exceeded''))\<rparr>)
             (analysis_prompt ''abc'' ''PDF'') = Inl (OtherError ''deadline exceeded'')"
    by simp
  have c: "llm_invoke ((stub_env ''x'')\<lparr>llm_invoke := (\<lambda>p. Inr (ContentList []))\<rparr>)
             (analysis_prompt ''abc'' ''CSV'') = Inr (ContentList [])"
    by simp
  have tag: "''PDF'' \<in> recognized_tags"
    by (simp add: recognized_tags_def)
  have d: "llm_invoke (stub_env ''}{'') (analysis_prompt ''abc'' ''TXT'') = Inr (ContentStr ''}{'')"
    "CHR ''{'' \<in> set ''}{''"
    "json_loads (stub_env ''}{'')
       (slice ''}{'' (py_find ''}{'' (CHR ''{'')) (py_rfind ''}{'' (CHR ''}'') + 1))
       = Inl (ValueError ''Expecting value: line 1 column 1 (char 0)'')"
    by (simp_all add: stub_env_def slice_def Let_def stub_loads_Nil)
  show ?thesis
    using analyze_content_fallback_records
        [of "stub_env ''All good.''" "''abc''" "''PDF''" "''All good.''"]
      analyze_content_fallback_records
        [of "(stub_env ''x'')\<lparr>llm_invoke := (\<lambda>p. Inl (OtherError ''deadline exceeded''))\<rparr>"
            "''abc''" "''PDF''" _ "OtherError ''deadline exceeded''"]
      analyze_content_fallback_records
        [of "(stub_env ''x'')\<lparr>llm_invoke := (\<lambda>p. Inr (ContentList []))\<rparr>"
            "''abc''" "''CSV''" _ _ "[]"]
      analyze_content_fallback_records
        [of "stub_env ''}{''" "''abc''" "''TXT''" "''}{''"
            "ValueError ''Expecting value: line 1 column 1 (char 0)''"]
      a b c d tag
    by simp
qed

text \<open>
  For a response without braces and the type PDF the analyzer returns the record of the
  \<open>else\<close> branch: none of its strings contains "PDF", and it is not the record of the
  \<open>except\<close> clause.
\<close>

theorem analyze_content_one_fallback_counterexample:
  "CHR ''{'' \<notin> set ''All good.''
   \<and> CHR ''}'' \<notin> set ''All good.''
   \<and> llm_invoke (stub_env ''All good.'') (analysis_prompt ''abc'' ''PDF'')
       = Inr (ContentStr ''All good.'')
   \<and> analyze_content (stub_env ''All good.'') ''abc'' ''PDF''
       = Inr (JObject [(''summary'', JStr ''Document analysis completed''),
                       (''key_insights'', JArr [JStr ''Content extracted successfully'']),
                       (''questions_answered'',
                          JArr [JStr ''General questions about document content''])])
   \<and> analyze_content (stub_env ''All good.'') ''abc'' ''PDF''
       \<noteq> Inr (JObject
                [(''summary'', JStr ''Analysis completed for PDF document''),
                 (''key_insights'',
                    JArr [JStr ''Document processed successfully'', JStr ''Content extracted'']),
                 (''questions_answered'',
                    JArr [JStr ''What is the main topic?'', JStr ''What are the key points?''])])
   \<and> \<not> sublist ''PDF'' ''Document analysis completed''
   \<and> \<not> sublist ''PDF'' ''Content extracted successfully''
   \<and> \<not> sublist ''PDF'' ''General questions about document content''"
  by (simp add: analyze_content_def analyze_attempt_def stub_env_def Let_def
      fallback_no_json_def sublist_code)

text \<open>
  C5: when the text from the first opening brace to the last closing brace of the
  response parses to an object with the keys \<open>summary\<close>, \<open>key_insights\<close> and
  \<open>questions_answered\<close>, the analyzer returns that object itself, so the three
  fields hold the parsed values, unvalidated and unaltered.
\<close>

theorem analyze_content_returns_parsed:
  assumes "llm_invoke env (analysis_prompt c dt) = Inr (ContentStr r)"
    and "CHR ''{'' \<in> set r"
    and "json_loads env (slice r (py_find r (CHR ''{'')) (py_rfind r (CHR ''}'') + 1))
           = Inr (JObject kvs)"
    and "map_of kvs ''summary'' = Some s"
    and "map_of kvs ''key_insights'' = Some k"
    and "map_of kvs ''questions_answered'' = Some q"
  shows "\<exists>a. analyze_content env c dt = Inr a
           \<and> a = JObject kvs
           \<and> getitem a ''summary'' = Inr s
           \<and> getitem a ''key_insights'' = Inr k
           \<and> getitem a ''questions_answered'' = Inr q"
proof -
  have "analyze_attempt env c dt = Inr (JObject kvs)"
    using analyze_attempt_str [OF assms(1)] assms(2) assms(3) by simp
  then have "analyze_content env c dt = Inr (JObject kvs)"
    by (simp add: analyze_content_def)
  then show ?thesis
    using assms(4-6) by simp
qed

lemma sample_reply_slice:
  "slice sample_reply (py_find sample_reply (CHR ''{'')) (py_rfind sample_reply (CHR ''}'') + 1)
     = sample_json_text"
  by (simp add: sample_reply_def sample_json_text_def slice_def Let_def)

lemma sample_reply_brace: "CHR ''{'' \<in> set sample_reply"
  by (simp add: sample_reply_def sample_json_text_def)

theorem analyze_content_returns_parsed_witness:
  "analyze_content (stub_env sample_reply) ''abc'' ''PDF'' = Inr sample_json
   \<and> getitem sample_json ''summary'' = Inr (JStr ''s'')
   \<and> getitem sample_json ''key_insights'' = Inr (JArr [JStr ''i''])
   \<and> getitem sample_json ''questions_answered'' = Inr (JArr [JStr ''q''])"
  using analyze_content_returns_parsed
    [of "stub_env sample_reply" "''abc''" "''PDF''" sample_reply
        "[(''summary'', JStr ''s''), (''key_insights'', JArr [JStr ''i'']),
          (''questions_answered'', JArr [JStr ''q''])]"
        "JStr ''s''" "JArr [JStr ''i'']" "JArr [JStr ''q'']"]
    sample_reply_slice sample_reply_brace
  by (simp add: stub_env_def stub_loads_def sample_json_def sample_json_text_def)

subsection \<open>A parsed object with a missing key\<close>

lemma first_missing_key:
  assumes "map_of kvs ''summary'' = None \<or> map_of kvs ''key_insights'' = None
           \<or> map_of kvs ''questions_answered'' = None"
  shows "\<exists>k. k \<in> {''summary'', ''key_insights'', ''questions_answered''}
           \<and> map_of kvs k = None
           \<and> (case getitem (JObject kvs) ''summary'' of
                 Inl e \<Rightarrow> Inl e
               | Inr s \<Rightarrow>
                   (case getitem (JObject kvs) ''key_insights'' of
                      Inl e \<Rightarrow> Inl e
                    | Inr k \<Rightarrow>
                        (case getitem (JObject kvs) ''questions_answered'' of
                           Inl e \<Rightarrow> Inl e
                         | Inr q \<Rightarrow> new_DocumentAnalysis env dt s k q)))
               = Inl (KeyError k)"
proof (cases "map_of kvs ''summary''")
  case None
  then show ?thesis by simp
next
  case s: (Some s)
  show ?thesis
  proof (cases "map_of kvs ''key_insights''")
    case None
    with s show ?thesis by simp
  next
    case k: (Some k)
    with s assms have "map_of kvs ''questions_answered'' = None" by simp
    with s k show ?thesis by simp
  qed
qed

lemma error_summary_not_fallback:
  "''Error processing document: '' @ x \<noteq> ''Document analysis completed''"
  "''Error processing document: '' @ x \<noteq> ''Analysis completed for '' @ y"
  by simp_all

text \<open>
  C9: when the parsed object lacks one of the three keys (as \<open>{}\<close> does), the
  analyzer still returns it unchanged; the field access in \<open>process_file\<close> raises
  \<open>KeyError\<close> for the first missing key, the top-level handler absorbs it, and the
  caller gets the error record, whose summary starts with "Error processing document: "
  and is neither of the analyzer's fallback summaries.
\<close>

theorem missing_key_error_analysis:
  assumes "dt = get_document_type (content_type fu)"
    and "extract_text env dt (file_path fu) = Inr t"
    and "llm_invoke env (analysis_prompt t dt) = Inr (ContentStr r)"
    and "CHR ''{'' \<in> set r"
    and "json_loads env (slice r (py_find r (CHR ''{'')) (py_rfind r (CHR ''}'') + 1))
           = Inr (JObject kvs)"
    and "map_of kvs ''summary'' = None \<or> map_of kvs ''key_insights'' = None
         \<or> map_of kvs ''questions_answered'' = None"
  shows "analyze_content env t dt = Inr (JObject kvs)
       \<and> (\<exists>k. k \<in> {''summary'', ''key_insights'', ''questions_answered''}
              \<and> map_of kvs k = None
              \<and> process_file_attempt env dt (file_path fu) = Inl (KeyError k)
              \<and> process_file env fu =
                  Inr \<lparr>document_type = dt,
                       summary = ''Error processing document: '' @ quoted k,
                       key_insights = [''Document processing failed''],
                       questions_answered = [''Unable to analyze due to processing error'']\<rparr>
              \<and> ''Error processing document: '' @ quoted k \<noteq> ''Document analysis completed''
              \<and> ''Error processing document: '' @ quoted k
                  \<noteq> ''Analysis completed for '' @ dt @ '' document'')"
proof -
  have "analyze_attempt env t dt = Inr (JObject kvs)"
    using analyze_attempt_str [OF assms(3)] assms(4) assms(5) by simp
  then have an: "analyze_content env t dt = Inr (JObject kvs)"
    by (simp add: analyze_content_def)
  from first_missing_key [OF assms(6), of env dt]
  obtain k where k: "k \<in> {''summary'', ''key_insights'', ''questions_answered''}"
    and none: "map_of kvs k = None"
    and att: "process_file_attempt env dt (file_path fu) = Inl (KeyError k)"
    using assms(2) an by (auto simp: process_file_attempt_def)
  have ne: "dt \<noteq> []"
    using assms(1) get_document_type_nonempty by simp
  have res: "process_file env fu =
      Inr \<lparr>document_type = dt,
           summary = ''Error processing document: '' @ quoted k,
           key_insights = [''Document processing failed''],
           questions_answered = [''Unable to analyze due to processing error'']\<rparr>"
    using att ne assms(1) by (simp add: process_file_def Let_def error_analysis_def)
  show ?thesis
    using an k none att res error_summary_not_fallback by blast
qed

lemma txt_type: "get_document_type ''text/plain'' = ''TXT''"
  by (simp add: get_document_type_def lower_def lower_char_def sublist_code)

theorem missing_key_error_analysis_witness:
  "analyze_content (stub_env ''{}'') ''a\<newline>b'' ''TXT'' = Inr (JObject [])
   \<and> process_file (stub_env ''{}'') (sample_upload ''text/plain'') =
       Inr \<lparr>document_type = ''TXT'',
            summary = ''Error processing document: '' @ quoted ''summary'',
            key_insights = [''Document processing failed''],
            questions_answered = [''Unable to analyze due to processing error'']\<rparr>"
proof -
  have ex: "extract_text (stub_env ''{}'') ''TXT'' (file_path (sample_upload ''text/plain''))
              = Inr ''a\<newline>b''"
    by (simp add: extract_text_def process_txt_def stub_env_def)
  have sl: "slice ''{}'' (py_find ''{}'' (CHR ''{'')) (py_rfind ''{}'' (CHR ''}'') + 1) = ''{}''"
    by (simp add: slice_def Let_def)
  have ld: "json_loads (stub_env ''{}'') ''{}'' = Inr (JObject [])"
    by (simp add: stub_env_def stub_loads_def)
  have att: "process_file_attempt (stub_env ''{}'') ''TXT''
               (file_path (sample_upload ''text/plain'')) = Inl (KeyError ''summary'')"
    using ex sl ld
    by (simp add: process_file_attempt_def analyze_content_def analyze_attempt_def Let_def
        stub_env_def)
  show ?thesis
    using missing_key_error_analysis
      [of "''TXT''" "sample_upload ''text/plain''" "stub_env ''{}''" "''a\<newline>b''" "''{}''" "[]"]
      txt_type ex sl ld att
    by (auto simp: sample_upload_def stub_env_def)
qed

subsection \<open>The extractors\<close>

lemma pdf_pages_all_text:
  "pdf_pages (map Inr ts) acc = Inr (acc @ concat (map (\<lambda>t. t @ ''\<newline>'') ts))"
  by (induction ts arbitrary: acc) simp_all

lemma pdf_pages_raise:
  "pdf_pages (map Inr ts @ Inl e # rest) acc = Inl e"
  by (induction ts arbitrary: acc) simp_all

lemma concat_terminated_join:
  "ts \<noteq> [] \<Longrightarrow> concat (map (\<lambda>t. t @ sep) ts) = join sep ts @ sep"
  by (induction sep ts rule: join.induct) simp_all

text \<open>
  C6: for a PDF that opens and whose pages all give text, \<open>_process_pdf\<close> returns the
  pages' texts in document order, each followed by a newline: the texts joined by
  newlines, with a closing newline. A page with no text contributes just its newline.
  When opening or parsing fails, or a page raises, the result is the error string and
  nothing is raised.
\<close>

theorem process_pdf_pages_in_order:
  "(pdf_reader env path = Inr (map Inr ts) \<longrightarrow>
      process_pdf env path = concat (map (\<lambda>t. t @ ''\<newline>'') ts)
      \<and> (ts \<noteq> [] \<longrightarrow> process_pdf env path = join ''\<newline>'' ts @ ''\<newline>''))
   \<and> (pdf_reader env path = Inl e \<longrightarrow>
        process_pdf env path = ''Error reading PDF: '' @ str_exn e)
   \<and> (pdf_reader env path = Inr (map Inr ts @ Inl e # rest) \<longrightarrow>
        process_pdf env path = ''Error reading PDF: '' @ str_exn e)"
proof -
  have ok: "process_pdf env path = concat (map (\<lambda>t. t @ ''\<newline>'') ts)"
    if "pdf_reader env path = Inr (map Inr ts)"
    using that by (simp add: process_pdf_def pdf_pages_all_text)
  have ok_join: "process_pdf env path = join ''\<newline>'' ts @ ''\<newline>''"
    if "pdf_reader env path = Inr (map Inr ts)" "ts \<noteq> []"
    using ok [OF that(1)] concat_terminated_join [OF that(2), of "''\<newline>''"] by simp
  have bad_open: "process_pdf env path = ''Error reading PDF: '' @ str_exn e"
    if "pdf_reader env path = Inl e"
    using that by (simp add: process_pdf_def)
  have bad_page: "process_pdf env path = ''Error reading PDF: '' @ str_exn e"
    if "pdf_reader env path = Inr (map Inr ts @ Inl e # rest)"
    using that by (simp add: process_pdf_def pdf_pages_raise)
  show ?thesis
    using ok ok_join bad_open bad_page by blast
qed

theorem process_pdf_pages_in_order_witness:
  "process_pdf (stub_env ''ok'') ''f.pdf'' = ''ab\<newline>\<newline>c\<newline>''
   \<and> process_pdf ((stub_env ''ok'')\<lparr>pdf_reader := (\<lambda>p. Inl (OtherError ''EOF marker not found''))\<rparr>)
        ''f.pdf'' = ''Error reading PDF: EOF marker not found''
   \<and> process_pdf ((stub_env ''ok'')\<lparr>pdf_reader :=
          (\<lambda>p. Inr [Inr ''ab'', Inl (OtherError ''bad page''), Inr ''c''])\<rparr>)
        ''f.pdf'' = ''Error reading PDF: bad page''"
  using process_pdf_pages_in_order
      [of "stub_env ''ok''" "''f.pdf''" "[''ab'', [], ''c'']"]
    process_pdf_pages_in_order
      [of "(stub_env ''ok'')\<lparr>pdf_reader := (\<lambda>p. Inl (OtherError ''EOF marker not found''))\<rparr>"
          "''f.pdf''" _ "OtherError ''EOF marker not found''"]
    process_pdf_pages_in_order
      [of "(stub_env ''ok'')\<lparr>pdf_reader :=
             (\<lambda>p. Inr [Inr ''ab'', Inl (OtherError ''bad page''), Inr ''c''])\<rparr>"
          "''f.pdf''" "[''ab'']" "OtherError ''bad page''" "[Inr ''c'']"]
  by (simp add: stub_env_def)

lemma universal_newlines_no_cr: "CHR 0x0D \<notin> set s \<Longrightarrow> universal_newlines s = s"
proof (induction s)
  case Nil
  show ?case by simp
next
  case (Cons a s)
  then have "a \<noteq> CHR 0x0D" and "universal_newlines s = s" by auto
  then show ?case by simp
qed

lemma un_Nil: "universal_newlines [] = []"
  by simp

lemma un_other: "c \<noteq> CHR 0x0D \<Longrightarrow> universal_newlines (c # cs) = c # universal_newlines cs"
  by simp

lemma un_cr_end: "universal_newlines [CHR 0x0D] = [CHR 0x0A]"
  by simp

lemma un_crlf: "universal_newlines (CHR 0x0D # CHR 0x0A # cs) = CHR 0x0A # universal_newlines cs"
  by simp

lemma un_cr_alone:
  "d \<noteq> CHR 0x0A \<Longrightarrow> universal_newlines (CHR 0x0D # d # ds) = CHR 0x0A # universal_newlines (d # ds)"
  by simp

lemma universal_newlines_no_cr_left: "CHR 0x0D \<notin> set (universal_newlines s)"
proof (induction s rule: length_induct)
  case (1 s)
  have IH: "CHR 0x0D \<notin> set (universal_newlines ys)" if "length ys < length s" for ys
    using "1.IH" that by blast
  show ?case
  proof (cases s)
    case Nil
    then show ?thesis by (simp add: un_Nil)
  next
    case (Cons c cs)
    show ?thesis
    proof (cases "c = CHR 0x0D")
      case False
      have "CHR 0x0D \<notin> set (universal_newlines cs)"
        by (rule IH) (simp add: Cons)
      then show ?thesis
        unfolding Cons un_other [OF False] using False by simp
    next
      case True
      show ?thesis
      proof (cases cs)
        case Nil
        show ?thesis
          unfolding Cons Nil True un_cr_end by simp
      next
        case inner: (Cons d ds)
        show ?thesis
        proof (cases "d = CHR 0x0A")
          case lf: True
          have "CHR 0x0D \<notin> set (universal_newlines ds)"
            by (rule IH) (simp add: Cons inner)
          then show ?thesis
            unfolding Cons inner True lf un_crlf by simp
        next
          case nolf: False
          have "CHR 0x0D \<notin> set (universal_newlines (d # ds))"
            by (rule IH) (simp add: Cons inner)
          then show ?thesis
            unfolding Cons inner True un_cr_alone [OF nolf] by simp
        qed
      qed
    qed
  qed
qed

text \<open>Translation goes through a concatenation unless the cut falls inside a \<open>\r\n\<close>.\<close>

lemma universal_newlines_append:
  "a = [] \<or> last a \<noteq> CHR 0x0D \<or> s = [] \<or> hd s \<noteq> CHR 0x0A
   \<Longrightarrow> universal_newlines (a @ s) = universal_newlines a @ universal_newlines s"
proof (induction a rule: length_induct)
  case (1 a)
  note cut = "1.prems"
  have IH: "universal_newlines (ys @ s) = universal_newlines ys @ universal_newlines s"
    if "length ys < length a" "ys = [] \<or> last ys \<noteq> CHR 0x0D \<or> s = [] \<or> hd s \<noteq> CHR 0x0A"
    for ys
    using "1.IH" that by blast
  show ?case
  proof (cases a)
    case Nil
    then show ?thesis by (simp add: un_Nil)
  next
    case (Cons c cs)
    show ?thesis
    proof (cases "c = CHR 0x0D")
      case False
      have "cs = [] \<or> last cs \<noteq> CHR 0x0D \<or> s = [] \<or> hd s \<noteq> CHR 0x0A"
        using cut Cons by (auto split: if_splits)
      then have "universal_newlines (cs @ s) = universal_newlines cs @ universal_newlines s"
        by (rule IH [rotated]) (simp add: Cons)
      then show ?thesis
        unfolding Cons append_Cons un_other [OF False] by simp
    next
      case True
      show ?thesis
      proof (cases cs)
        case Nil
        then have a: "a = [CHR 0x0D]"
          using True Cons by simp
        then have s: "s = [] \<or> hd s \<noteq> CHR 0x0A"
          using cut by simp
        show ?thesis
        proof (cases s)
          case Nil
          then show ?thesis unfolding a by (simp add: un_Nil)
        next
          case sc: (Cons d ds)
          then have d: "d \<noteq> CHR 0x0A"
            using s by simp
          show ?thesis
            unfolding a sc append_Cons append_Nil un_cr_alone [OF d] un_cr_end by (rule refl)
        qed
      next
        case inner: (Cons d ds)
        show ?thesis
        proof (cases "d = CHR 0x0A")
          case lf: True
          have "ds = [] \<or> last ds \<noteq> CHR 0x0D \<or> s = [] \<or> hd s \<noteq> CHR 0x0A"
            using cut Cons inner by (auto split: if_splits)
          then have "universal_newlines (ds @ s) = universal_newlines ds @ universal_newlines s"
            by (rule IH [rotated]) (simp add: Cons inner)
          then show ?thesis
            unfolding Cons inner True lf append_Cons un_crlf by simp
        next
          case nolf: False
          have "d # ds = [] \<or> last (d # ds) \<noteq> CHR 0x0D \<or> s = [] \<or> hd s \<noteq> CHR 0x0A"
            using cut Cons inner by (auto split: if_splits)
          then have "universal_newlines ((d # ds) @ s)
                       = universal_newlines (d # ds) @ universal_newlines s"
            by (rule IH [rotated]) (simp add: Cons inner)
          then show ?thesis
            unfolding Cons inner True append_Cons un_cr_alone [OF nolf] by simp
        qed
      qed
    qed
  qed
qed

lemma universal_newlines_crlf:
  "universal_newlines (a @ [CHR 0x0D, CHR 0x0A] @ b)
     = universal_newlines a @ [CHR 0x0A] @ universal_newlines b"
proof -
  have "universal_newlines (a @ ([CHR 0x0D, CHR 0x0A] @ b))
          = universal_newlines a @ universal_newlines ([CHR 0x0D, CHR 0x0A] @ b)"
    by (rule universal_newlines_append) simp
  then show ?thesis
    by (simp del: universal_newlines.simps add: un_crlf)
qed

lemma universal_newlines_lone_cr:
  assumes "b = [] \<or> hd b \<noteq> CHR 0x0A"
  shows "universal_newlines (a @ [CHR 0x0D] @ b)
           = universal_newlines a @ [CHR 0x0A] @ universal_newlines b"
proof -
  have split: "universal_newlines (a @ ([CHR 0x0D] @ b))
          = universal_newlines a @ universal_newlines ([CHR 0x0D] @ b)"
    by (rule universal_newlines_append) simp
  have "universal_newlines ([CHR 0x0D] @ b) = [CHR 0x0A] @ universal_newlines b"
  proof (cases b)
    case Nil
    then show ?thesis by simp
  next
    case (Cons d ds)
    then have "d \<noteq> CHR 0x0A" using assms by simp
    then show ?thesis
      unfolding Cons by (simp del: universal_newlines.simps add: un_cr_alone)
  qed
  with split show ?thesis by simp
qed

lemma universal_newlines_keeps_text:
  "filter (\<lambda>c. c \<noteq> CHR 0x0D \<and> c \<noteq> CHR 0x0A) (universal_newlines s)
     = filter (\<lambda>c. c \<noteq> CHR 0x0D \<and> c \<noteq> CHR 0x0A) s"
proof (induction s rule: length_induct)
  case (1 s)
  let ?f = "filter (\<lambda>c. c \<noteq> CHR 0x0D \<and> c \<noteq> CHR 0x0A)"
  have IH: "?f (universal_newlines ys) = ?f ys" if "length ys < length s" for ys
    using "1.IH" that by blast
  show ?case
  proof (cases s)
    case Nil
    then show ?thesis by (simp add: un_Nil)
  next
    case (Cons c cs)
    show ?thesis
    proof (cases "c = CHR 0x0D")
      case False
      have "?f (universal_newlines cs) = ?f cs"
        by (rule IH) (simp add: Cons)
      then show ?thesis
        unfolding Cons un_other [OF False] by simp
    next
      case True
      show ?thesis
      proof (cases cs)
        case Nil
        show ?thesis
          unfolding Cons Nil True un_cr_end by simp
      next
        case inner: (Cons d ds)
        show ?thesis
        proof (cases "d = CHR 0x0A")
          case lf: True
          have "?f (universal_newlines ds) = ?f ds"
            by (rule IH) (simp add: Cons inner)
          then show ?thesis
            unfolding Cons inner True lf un_crlf by simp
        next
          case nolf: False
          have "?f (universal_newlines (d # ds)) = ?f (d # ds)"
            by (rule IH) (simp add: Cons inner)
          then show ?thesis
            unfolding Cons inner True un_cr_alone [OF nolf] by simp
        qed
      qed
    qed
  qed
qed

text \<open>
  C8, as the code has it: for a file that decodes as UTF-8, \<open>_process_txt\<close> returns
  the decoded contents after the newline translation of text mode. No carriage return
  is left in the result: each \<open>\r\n\<close> has become one \<open>\n\<close>, and so has each \<open>\r\<close>
  that no \<open>\n\<close> follows. Every other character is kept, in order, so nothing is cut
  off; when the contents have no carriage return the text is the decoded contents,
  unchanged.
\<close>

theorem process_txt_universal_newlines:
  assumes "read_utf8 env path = Inr decoded"
  shows "process_txt env path = universal_newlines decoded
       \<and> CHR 0x0D \<notin> set (process_txt env path)
       \<and> (CHR 0x0D \<notin> set decoded \<longrightarrow> process_txt env path = decoded)
       \<and> (decoded = a @ [CHR 0x0D, CHR 0x0A] @ b \<longrightarrow>
            process_txt env path = universal_newlines a @ [CHR 0x0A] @ universal_newlines b)
       \<and> (decoded = a @ [CHR 0x0D] @ b \<and> (b = [] \<or> hd b \<noteq> CHR 0x0A) \<longrightarrow>
            process_txt env path = universal_newlines a @ [CHR 0x0A] @ universal_newlines b)
       \<and> filter (\<lambda>c. c \<noteq> CHR 0x0D \<and> c \<noteq> CHR 0x0A) (process_txt env path)
           = filter (\<lambda>c. c \<noteq> CHR 0x0D \<and> c \<noteq> CHR 0x0A) decoded"
proof -
  have eq: "process_txt env path = universal_newlines decoded"
    using assms by (simp add: process_txt_def)
  have nocr: "CHR 0x0D \<notin> set (process_txt env path)"
    unfolding eq by (rule universal_newlines_no_cr_left)
  have same: "process_txt env path = decoded" if "CHR 0x0D \<notin> set decoded"
    unfolding eq using that by (rule universal_newlines_no_cr)
  have crlf: "process_txt env path = universal_newlines a @ [CHR 0x0A] @ universal_newlines b"
    if "decoded = a @ [CHR 0x0D, CHR 0x0A] @ b"
    unfolding eq that by (rule universal_newlines_crlf)
  have lone: "process_txt env path = universal_newlines a @ [CHR 0x0A] @ universal_newlines b"
    if "decoded = a @ [CHR 0x0D] @ b" "b = [] \<or> hd b \<noteq> CHR 0x0A"
    unfolding eq that(1) using that(2) by (rule universal_newlines_lone_cr)
  have kept: "filter (\<lambda>c. c \<noteq> CHR 0x0D \<and> c \<noteq> CHR 0x0A) (process_txt env path)
           = filter (\<lambda>c. c \<noteq> CHR 0x0D \<and> c \<noteq> CHR 0x0A) decoded"
    unfolding eq by (rule universal_newlines_keeps_text)
  show ?thesis
    using eq nocr same crlf lone kept by blast
qed

lemma cr_free: "CHR 0x0D \<notin> set ''one\<newline>two''"
  by simp

theorem process_txt_universal_newlines_witness:
  "process_txt ((stub_env ''ok'')\<lparr>read_utf8 := (\<lambda>p. Inr ''one\<newline>two'')\<rparr>) ''notes.txt''
     = ''one\<newline>two''
   \<and> process_txt (stub_env ''ok'') ''notes.txt'' = ''a\<newline>b''
   \<and> process_txt
        ((stub_env ''ok'')\<lparr>read_utf8 := (\<lambda>p. Inr [CHR ''x'', CHR 0x0D, CHR ''y'', CHR 0x0D])\<rparr>)
        ''notes.txt'' = ''x\<newline>y\<newline>''"
proof -
  have r1: "read_utf8 ((stub_env ''ok'')\<lparr>read_utf8 := (\<lambda>p. Inr ''one\<newline>two'')\<rparr>) ''notes.txt''
              = Inr ''one\<newline>two''"
    by simp
  have r2: "read_utf8 (stub_env ''ok'') ''notes.txt'' = Inr (''a'' @ [CHR 0x0D, CHR 0x0A] @ ''b'')"
    by (simp add: stub_env_def)
  have r3: "read_utf8
              ((stub_env ''ok'')\<lparr>read_utf8 := (\<lambda>p. Inr [CHR ''x'', CHR 0x0D, CHR ''y'', CHR 0x0D])\<rparr>)
              ''notes.txt'' = Inr (''x'' @ [CHR 0x0D] @ [CHR ''y'', CHR 0x0D])"
    by simp
  show ?thesis
    using process_txt_universal_newlines [OF r1, of "[]" "[]"] cr_free
      process_txt_universal_newlines [OF r2, of "''a''" "''b''"]
      process_txt_universal_newlines [OF r3, of "''x''" "[CHR ''y'', CHR 0x0D]"]
    by simp
qed

text \<open>
  A file holding \<open>a\r\nb\<close> comes back as \<open>a\nb\<close>, which is not its decoded contents.
\<close>

theorem process_txt_verbatim_counterexample:
  "read_utf8 (stub_env ''ok'') ''notes.txt'' = Inr [CHR ''a'', CHR 0x0D, CHR 0x0A, CHR ''b'']
   \<and> process_txt (stub_env ''ok'') ''notes.txt'' = [CHR ''a'', CHR 0x0A, CHR ''b'']
   \<and> process_txt (stub_env ''ok'') ''notes.txt'' \<noteq> [CHR ''a'', CHR 0x0D, CHR 0x0A, CHR ''b'']"
  by (simp add: process_txt_def stub_env_def)

lemma sublist_inside: "sublist x m \<Longrightarrow> sublist x (a @ m @ b)"
proof -
  assume "sublist x m"
  then obtain ps ss where "m = ps @ x @ ss"
    by (auto simp: sublist_def)
  then have "a @ m @ b = (a @ ps) @ x @ (ss @ b)"
    by simp
  then show ?thesis
    unfolding sublist_def by blast
qed

lemma sublist_join: "x \<in> set xs \<Longrightarrow> sublist x (join sep xs)"
proof (induction sep xs rule: join.induct)
  case (1 sep)
  then show ?case by simp
next
  case (2 sep y)
  then show ?case by simp
next
  case (3 sep y z zs)
  show ?case
  proof (cases "x = y")
    case True
    then show ?thesis by simp
  next
    case False
    with 3 have "sublist x (join sep (z # zs))" by simp
    then have "sublist x ((y @ sep) @ join sep (z # zs) @ [])"
      by (rule sublist_inside)
    then show ?thesis by simp
  qed
qed

lemma sublist_concat_map: "c \<in> set cs \<Longrightarrow> sublist (f c) (concat (map f cs))"
proof -
  assume "c \<in> set cs"
  then obtain us vs where "cs = us @ c # vs"
    by (auto simp: in_set_conv_decomp)
  then have "concat (map f cs) = concat (map f us) @ f c @ concat (map f vs)"
    by simp
  then show ?thesis
    unfolding sublist_def by blast
qed

lemma dtype_lines_eq:
  "dtype_lines cs acc =
     acc @ concat (map (\<lambda>c. ''- '' @ col_name c @ '': '' @ col_dtype c @ ''\<newline>'') cs)"
  by (induction cs arbitrary: acc) simp_all

lemma csv_report_flat:
  "csv_report df =
     (''CSV file with '' @ str_nat (df_len df) @ '' rows and ''
        @ str_nat (length (df_columns df)) @ '' columns.'') @ ''\<newline>''
     @ ''Columns: '' @ join '', '' (map col_name (df_columns df)) @ ''\<newline>\<newline>''
     @ ''Column data types:\<newline>''
     @ concat (map (\<lambda>c. ''- '' @ col_name c @ '': '' @ col_dtype c @ ''\<newline>'') (df_columns df))
     @ ''\<newline>'' @ (''First 5 rows:\<newline>'' @ df_head_string df) @ ''\<newline>''
     @ (if \<exists>c\<in>set (df_columns df). col_numeric c
        then ''\<newline>'' @ (''Numeric column statistics:\<newline>'' @ df_describe_string df) @ ''\<newline>''
        else [])"
proof -
  have "(0 < length (filter col_numeric (df_columns df)))
          = (\<exists>c\<in>set (df_columns df). col_numeric c)"
    by (auto simp: filter_empty_conv)
  then show ?thesis
    by (simp add: csv_report_def Let_def dtype_lines_eq)
qed

lemma sublist_skip: "sublist x m \<Longrightarrow> sublist x (a @ m)"
  using sublist_inside [of x m a "[]"] by simp

lemma sublist_front: "sublist x m \<Longrightarrow> sublist x (m @ b)"
  using sublist_inside [of x m "[]" b] by simp

lemma sublist_trans: "sublist a b \<Longrightarrow> sublist b c \<Longrightarrow> sublist a c"
proof -
  assume ab: "sublist a b" and "sublist b c"
  then obtain ps ss where "c = ps @ b @ ss"
    by (auto simp: sublist_def)
  then show ?thesis
    using sublist_inside [OF ab, of ps ss] by simp
qed

text \<open>
  C7: for a CSV file that pandas parses into \<open>N\<close> rows and \<open>M\<close> columns, the report
  contains the sentence with the literal counts \<open>N\<close> and \<open>M\<close>, every column name,
  a line with the declared type of every column, the rendering of the first five rows
  and, when there is a numeric column, the rendering of the descriptive statistics.
\<close>

theorem process_csv_report:
  assumes "read_csv env path = Inr df"
  shows "sublist (''CSV file with '' @ str_nat (df_len df) @ '' rows and ''
                    @ str_nat (length (df_columns df)) @ '' columns.'') (process_csv env path)
       \<and> sublist (str_nat (df_len df)) (process_csv env path)
       \<and> sublist (str_nat (length (df_columns df))) (process_csv env path)
       \<and> (\<forall>c\<in>set (df_columns df).
             sublist (col_name c) (process_csv env path)
             \<and> sublist (''- '' @ col_name c @ '': '' @ col_dtype c @ ''\<newline>'')
                 (process_csv env path))
       \<and> sublist (''First 5 rows:\<newline>'' @ df_head_string df) (process_csv env path)
       \<and> ((\<exists>c\<in>set (df_columns df). col_numeric c) \<longrightarrow>
             sublist (''Numeric column statistics:\<newline>'' @ df_describe_string df)
               (process_csv env path))"
proof -
  let ?R = "process_csv env path"
  let ?N = "str_nat (df_len df)"
  let ?M = "str_nat (length (df_columns df))"
  let ?H = "''CSV file with '' @ ?N @ '' rows and '' @ ?M @ '' columns.''"
  let ?J = "join '', '' (map col_name (df_columns df))"
  let ?line = "\<lambda>c. ''- '' @ col_name c @ '': '' @ col_dtype c @ ''\<newline>''"
  let ?L = "concat (map ?line (df_columns df))"
  let ?F = "''First 5 rows:\<newline>'' @ df_head_string df"
  let ?S = "''Numeric column statistics:\<newline>'' @ df_describe_string df"
  let ?tail = "if \<exists>c\<in>set (df_columns df). col_numeric c
               then ''\<newline>'' @ ?S @ ''\<newline>'' else []"
  have R: "?R = csv_report df"
    using assms by (simp add: process_csv_def)
  have flat: "?R = ?H @ ''\<newline>'' @ ''Columns: '' @ ?J @ ''\<newline>\<newline>''
                 @ ''Column data types:\<newline>'' @ ?L @ ''\<newline>'' @ ?F @ ''\<newline>'' @ ?tail"
    unfolding R by (rule csv_report_flat)
  have head: "sublist ?H ?R"
    unfolding flat by (rule sublist_append_rightI)
  have "sublist ?N ?H"
    by (rule sublist_appendI)
  then have rows: "sublist ?N ?R"
    using head by (rule sublist_trans)
  have "?H = (''CSV file with '' @ ?N @ '' rows and '') @ ?M @ '' columns.''"
    by (simp only: append_assoc)
  then have "sublist ?M ?H"
    by (simp only: sublist_appendI)
  then have cols: "sublist ?M ?R"
    using head by (rule sublist_trans)
  have atJ: "?R = (?H @ ''\<newline>'' @ ''Columns: '') @ ?J
                   @ (''\<newline>\<newline>'' @ ''Column data types:\<newline>'' @ ?L @ ''\<newline>'' @ ?F
                      @ ''\<newline>'' @ ?tail)"
    unfolding flat by (simp only: append_assoc)
  have atL: "?R = (?H @ ''\<newline>'' @ ''Columns: '' @ ?J @ ''\<newline>\<newline>''
                     @ ''Column data types:\<newline>'') @ ?L
                   @ (''\<newline>'' @ ?F @ ''\<newline>'' @ ?tail)"
    unfolding flat by (simp only: append_assoc)
  have atF: "?R = (?H @ ''\<newline>'' @ ''Columns: '' @ ?J @ ''\<newline>\<newline>''
                     @ ''Column data types:\<newline>'' @ ?L @ ''\<newline>'') @ ?F
                   @ (''\<newline>'' @ ?tail)"
    unfolding flat by (simp only: append_assoc)
  have names: "sublist (col_name c) ?R" if "c \<in> set (df_columns df)" for c
  proof -
    have "col_name c \<in> set (map col_name (df_columns df))"
      using that by simp
    then have "sublist (col_name c) ?J"
      by (rule sublist_join)
    then show ?thesis
      by (subst atJ) (rule sublist_inside)
  qed
  have dtypes: "sublist (?line c) ?R" if "c \<in> set (df_columns df)" for c
  proof -
    have "sublist (?line c) ?L"
      using that by (rule sublist_concat_map)
    then show ?thesis
      by (subst atL) (rule sublist_inside)
  qed
  have rows5: "sublist ?F ?R"
    by (subst atF) (rule sublist_appendI)
  have stats: "sublist ?S ?R" if num: "\<exists>c\<in>set (df_columns df). col_numeric c"
  proof -
    have "?R = (?H @ ''\<newline>'' @ ''Columns: '' @ ?J @ ''\<newline>\<newline>''
                  @ ''Column data types:\<newline>'' @ ?L @ ''\<newline>'' @ ?F @ ''\<newline>''
                  @ ''\<newline>'') @ ?S @ ''\<newline>''"
      unfolding flat if_P [OF num] by (simp only: append_assoc)
    then show ?thesis
      by (simp only: sublist_appendI)
  qed
  show ?thesis
    using head rows cols names dtypes rows5 stats by blast
qed

lemma sample_frame_numeric: "\<exists>c\<in>set (df_columns sample_frame). col_numeric c"
  by (simp add: sample_frame_def)

theorem process_csv_report_witness:
  "read_csv (stub_env ''ok'') ''data.csv'' = Inr sample_frame
   \<and> sublist ''CSV file with 12 rows and 2 columns.'' (process_csv (stub_env ''ok'') ''data.csv'')
   \<and> sublist ''city'' (process_csv (stub_env ''ok'') ''data.csv'')
   \<and> sublist ''- pop: int64\<newline>'' (process_csv (stub_env ''ok'') ''data.csv'')
   \<and> sublist ''First 5 rows:\<newline>HEAD'' (process_csv (stub_env ''ok'') ''data.csv'')
   \<and> sublist ''Numeric column statistics:\<newline>STATS''
        (process_csv (stub_env ''ok'') ''data.csv'')"
proof -
  have rd: "read_csv (stub_env ''ok'') ''data.csv'' = Inr sample_frame"
    by (simp add: stub_env_def)
  have n: "str_nat (df_len sample_frame) = ''12''"
    "str_nat (length (df_columns sample_frame)) = ''2''"
    by (simp_all add: sample_frame_def str_nat.simps char_of_eq)
  show ?thesis
    using process_csv_report [OF rd] sample_frame_numeric rd n
    by (simp add: sample_frame_def)
qed

end
